theory Spec2Isabelle
  imports Complex_Main
begin

section \<open>The movie-review model runner of the DIANNA text tutorials\<close>

text \<open>
  The two tutorial notebooks \<^verbatim>\<open>tutorials/lime_text.ipynb\<close> and
  \<^verbatim>\<open>tutorials/rise_text.ipynb\<close> each define a class
  \<^verbatim>\<open>MovieReviewsModelRunner\<close>. Its constructor stores four fields; its
  \<^verbatim>\<open>__call__\<close> turns sentences into a matrix of class scores. The two
  \<^verbatim>\<open>__call__\<close> bodies share the tokenize/pad/numericalize part and differ in
  how the scoring function is invoked: once for the whole batch (LIME notebook) or once
  per sentence (RISE notebook).

  Numbers are exact: Python's \<^verbatim>\<open>int\<close> is \<^typ>\<open>int\<close>, and a float is a
  \<^typ>\<open>real\<close>, so rounding is not part of this model. A two-dimensional numpy array is the
  list of its rows.
\<close>

subsection \<open>Data\<close>

text \<open>
  The fields set by \<^verbatim>\<open>__init__\<close>. \<^verbatim>\<open>self.run_model\<close> and
  \<^verbatim>\<open>self.tokenizer\<close> are supplied from outside the repository and are taken as
  functions: the scoring function from a batch of numericalized sentences to a
  two-dimensional array of logits, the tokenizer from a sentence to its tokens.
  The field \<open>vocab\<close> is the dictionary \<^verbatim>\<open>self.vocab.stoi\<close>.
\<close>

record runner =
  run_model :: "int list list \<Rightarrow> real list list"
  vocab :: "string \<rightharpoonup> int"
  max_filter_size :: int
  tokenizer :: "string \<Rightarrow> string list"

text \<open>The exceptions the body of \<^verbatim>\<open>__call__\<close> can raise.\<close>

datatype error =
  KeyError string
  | ValueError
  | IndexError
  | TypeError

text \<open>
  The argument of \<^verbatim>\<open>__call__\<close>: one string, or a sequence of strings
  (the test is \<^verbatim>\<open>isinstance(sentences, str)\<close>).
\<close>

datatype sentences = Str string | Batch "string list"

text \<open>
  What a call does besides computing its result: it invokes the tokenizer, reads the
  vocabulary, and invokes the scoring function. Each of these is recorded, in order.
\<close>

datatype event =
  Tokenizer_call string
  | Stoi_contains string
  | Stoi_getitem string
  | Run_model_call "int list list"

text \<open>
  The state a call runs in: the object \<^verbatim>\<open>self\<close> and the record of what has been
  invoked so far. A statement of the method takes the state and returns the value or the
  raised exception together with the state it leaves.
\<close>

record world =
  self :: runner
  calls :: "event list"

type_synonym 'a action = "world \<Rightarrow> (error + 'a) \<times> world"

definition ret :: "'a \<Rightarrow> 'a action" where
  "ret x = (\<lambda>w. (Inr x, w))"

definition lift :: "error + 'a \<Rightarrow> 'a action" where
  "lift r = (\<lambda>w. (r, w))"

definition and_then :: "'a action \<Rightarrow> ('a \<Rightarrow> 'b action) \<Rightarrow> 'b action" where
  "and_then m f = (\<lambda>w. case m w of (Inl e, w') \<Rightarrow> (Inl e, w') | (Inr x, w') \<Rightarrow> f x w')"

definition record_call :: "event \<Rightarrow> world \<Rightarrow> world" where
  "record_call ev w = w\<lparr>calls := calls w @ [ev]\<rparr>"

subsection \<open>The primitive steps\<close>

text \<open>\<^verbatim>\<open>self.tokenizer(sentence)\<close>\<close>

definition call_tokenizer :: "string \<Rightarrow> string list action" where
  "call_tokenizer sentence =
     (\<lambda>w. (Inr (tokenizer (self w) sentence), record_call (Tokenizer_call sentence) w))"

text \<open>\<^verbatim>\<open>self.max_filter_size\<close>\<close>

definition get_max_filter_size :: "int action" where
  "get_max_filter_size = (\<lambda>w. (Inr (max_filter_size (self w)), w))"

text \<open>\<^verbatim>\<open>token in self.vocab.stoi\<close>\<close>

definition stoi_contains :: "string \<Rightarrow> bool action" where
  "stoi_contains token =
     (\<lambda>w. (Inr (vocab (self w) token \<noteq> None), record_call (Stoi_contains token) w))"

text \<open>\<^verbatim>\<open>self.vocab.stoi[token]\<close>: a missing key raises \<^verbatim>\<open>KeyError\<close>.\<close>

definition stoi_getitem :: "string \<Rightarrow> int action" where
  "stoi_getitem token =
     (\<lambda>w. (case vocab (self w) token of None \<Rightarrow> Inl (KeyError token) | Some i \<Rightarrow> Inr i,
           record_call (Stoi_getitem token) w))"

text \<open>\<^verbatim>\<open>self.run_model(batch)\<close>\<close>

definition call_run_model :: "int list list \<Rightarrow> real list list action" where
  "call_run_model batch =
     (\<lambda>w. (Inr (run_model (self w) batch), record_call (Run_model_call batch) w))"

subsection \<open>The part both notebooks share\<close>

text \<open>
  \<^verbatim>\<open>if isinstance(sentences, str): sentences = [sentences]\<close>
\<close>

fun ensure_batch :: "sentences \<Rightarrow> string list" where
  "ensure_batch (Str s) = [s]"
| "ensure_batch (Batch ss) = ss"

text \<open>
  \<^verbatim>\<open>if len(tokens) < self.max_filter_size:
      tokens += ['<pad>'] * (self.max_filter_size - len(tokens))\<close>
\<close>

definition pad_tokens :: "int \<Rightarrow> string list \<Rightarrow> string list" where
  "pad_tokens mfs tokens =
     (if int (length tokens) < mfs
      then tokens @ replicate (nat (mfs - int (length tokens))) ''<pad>''
      else tokens)"

text \<open>
  One element of the list comprehension:
  \<^verbatim>\<open>self.vocab.stoi[token] if token in self.vocab.stoi else self.vocab.stoi['<unk>']\<close>
\<close>

definition numericalize_token :: "string \<Rightarrow> int action" where
  "numericalize_token token =
     and_then (stoi_contains token) (\<lambda>present.
       if present then stoi_getitem token else stoi_getitem ''<unk>'')"

text \<open>The list comprehension over the tokens, left to right; the first exception ends it.\<close>

fun numericalize :: "string list \<Rightarrow> int list action" where
  "numericalize [] = ret []"
| "numericalize (token # tokens) =
     and_then (numericalize_token token) (\<lambda>i.
     and_then (numericalize tokens) (\<lambda>rest.
     ret (i # rest)))"

text \<open>The loop body up to \<^verbatim>\<open>tokens_numerical\<close>.\<close>

definition tokens_numerical :: "string \<Rightarrow> int list action" where
  "tokens_numerical sentence =
     and_then (call_tokenizer sentence) (\<lambda>tokens.
     and_then get_max_filter_size (\<lambda>mfs.
     numericalize (pad_tokens mfs tokens)))"

text \<open>
  \<^verbatim>\<open>negativity = 1 - positivity
  return np.transpose([negativity, positivity])\<close>
\<close>

definition two_classes :: "real list \<Rightarrow> real list list" where
  "two_classes positivity =
     (let negativity = map (\<lambda>p. 1 - p) positivity
      in transpose [negativity, positivity])"

subsection \<open>\<^verbatim>\<open>__call__\<close> in the LIME notebook\<close>

text \<open>The \<^verbatim>\<open>for\<close> loop, which appends to \<^verbatim>\<open>tokenized_sentences\<close>.\<close>

fun lime_loop :: "string list \<Rightarrow> int list list \<Rightarrow> int list list action" where
  "lime_loop [] tokenized_sentences = ret tokenized_sentences"
| "lime_loop (sentence # rest) tokenized_sentences =
     and_then (tokens_numerical sentence) (\<lambda>tn.
     lime_loop rest (tokenized_sentences @ [tn]))"

text \<open>
  \<^verbatim>\<open>np.apply_along_axis(sigmoid, 1, logits)\<close> applies the function to every row of
  a two-dimensional array. numpy takes the first row before anything else and raises
  \<^verbatim>\<open>ValueError\<close> (``Cannot apply_along_axis when any iteration dimensions are
  0'') when there is none. \<^verbatim>\<open>sigmoid\<close> is scipy's \<^verbatim>\<open>expit\<close>, which works
  elementwise; it is a parameter here.
\<close>

definition apply_along_axis_1 :: "(real \<Rightarrow> real) \<Rightarrow> real list list \<Rightarrow> error + real list list" where
  "apply_along_axis_1 sigmoid arr =
     (if arr = [] then Inl ValueError else Inr (map (map sigmoid) arr))"

text \<open>
  \<^verbatim>\<open>pred[:, 0]\<close>: column 0 of every row; \<^verbatim>\<open>IndexError\<close> when the rows
  have no column.
\<close>

definition column_0 :: "real list list \<Rightarrow> error + real list" where
  "column_0 arr = (if [] \<in> set arr then Inl IndexError else Inr (map hd arr))"

definition call_lime :: "(real \<Rightarrow> real) \<Rightarrow> sentences \<Rightarrow> real list list action" where
  "call_lime sigmoid sentences =
     and_then (lime_loop (ensure_batch sentences) []) (\<lambda>tokenized_sentences.
     and_then (call_run_model tokenized_sentences) (\<lambda>logits.
     and_then (lift (apply_along_axis_1 sigmoid logits)) (\<lambda>pred.
     and_then (lift (column_0 pred)) (\<lambda>positivity.
     ret (two_classes positivity)))))"

subsection \<open>\<^verbatim>\<open>__call__\<close> in the RISE notebook\<close>

text \<open>
  \<^verbatim>\<open>float(a)\<close> of a numpy array: the single element of an array that has exactly
  one, \<^verbatim>\<open>TypeError\<close> (``only size-1 arrays can be converted to Python
  scalars'') otherwise.
\<close>

fun to_float :: "real list list \<Rightarrow> error + real" where
  "to_float [[x]] = Inr x"
| "to_float arr = Inl TypeError"

text \<open>The \<^verbatim>\<open>for\<close> loop, which appends to \<^verbatim>\<open>output\<close>.\<close>

fun rise_loop :: "(real \<Rightarrow> real) \<Rightarrow> string list \<Rightarrow> real list \<Rightarrow> real list action" where
  "rise_loop sigmoid [] output = ret output"
| "rise_loop sigmoid (sentence # rest) output =
     and_then (tokens_numerical sentence) (\<lambda>tn.
     and_then (call_run_model [tn]) (\<lambda>logits.
     and_then (lift (to_float (map (map sigmoid) logits))) (\<lambda>pred.
     rise_loop sigmoid rest (output @ [pred]))))"

definition call_rise :: "(real \<Rightarrow> real) \<Rightarrow> sentences \<Rightarrow> real list list action" where
  "call_rise sigmoid sentences =
     and_then (rise_loop sigmoid (ensure_batch sentences) []) (\<lambda>output.
     ret (two_classes output))"

subsection \<open>Properties of actions and of the scoring function\<close>

text \<open>
  An action only observes the runner when it leaves \<^verbatim>\<open>self\<close> as it found it and
  its value depends on \<^verbatim>\<open>self\<close> alone, not on what was invoked before.
\<close>

definition observes_only :: "'a action \<Rightarrow> bool" where
  "observes_only m =
     ((\<forall>w. self (snd (m w)) = self w) \<and>
      (\<forall>w w'. self w = self w' \<longrightarrow> fst (m w) = fst (m w')))"

text \<open>
  The scoring function scores every numericalized sentence on its own: for a batch of
  \<open>N\<close> sentences it returns an \<open>N \<times> 1\<close> matrix whose row \<open>i\<close> is the logit
  \<open>g\<close> gives to sentence \<open>i\<close>.
\<close>

definition one_logit_each :: "(int list \<Rightarrow> real) \<Rightarrow> runner \<Rightarrow> bool" where
  "one_logit_each g r = (\<forall>batch. run_model r batch = map (\<lambda>tn. [g tn]) batch)"

subsection \<open>A small runner for concrete evaluations\<close>

text \<open>
  A four-word vocabulary, a tokenizer that knows one two-word review, a scoring function
  that sums the indices, a two-valued stand-in for the sigmoid, and
  \<^verbatim>\<open>max_filter_size=5\<close> as in the notebooks.
\<close>

definition example_vocab :: "string \<rightharpoonup> int" where
  "example_vocab = [''<unk>'' \<mapsto> 0, ''<pad>'' \<mapsto> 1, ''thriller'' \<mapsto> 2, ''surprises'' \<mapsto> 3]"

definition example_tokenizer :: "string \<Rightarrow> string list" where
  "example_tokenizer s = (if s = ''thriller surprises'' then [''thriller'', ''surprises''] else [s])"

definition example_logit :: "int list \<Rightarrow> real" where
  "example_logit tn = of_int (sum_list tn) - 5"

definition example_sigmoid :: "real \<Rightarrow> real" where
  "example_sigmoid x = (if x < 0 then 1 / 4 else 3 / 4)"

definition example_runner :: runner where
  "example_runner =
     \<lparr>run_model = map (\<lambda>tn. [example_logit tn]), vocab = example_vocab,
      max_filter_size = 5, tokenizer = example_tokenizer\<rparr>"

definition example_world :: world where
  "example_world = \<lparr>self = example_runner, calls = []\<rparr>"


section \<open>Properties\<close>

subsection \<open>Actions only observe the runner\<close>

lemma observes_onlyI:
  assumes "\<And>w. self (snd (m w)) = self w"
    and "\<And>w w'. self w = self w' \<Longrightarrow> fst (m w) = fst (m w')"
  shows "observes_only m"
  using assms unfolding observes_only_def by blast

lemma observes_only_self: "observes_only m \<Longrightarrow> self (snd (m w)) = self w"
  unfolding observes_only_def by blast

lemma observes_only_fst: "observes_only m \<Longrightarrow> self w = self w' \<Longrightarrow> fst (m w) = fst (m w')"
  unfolding observes_only_def by blast

lemma fst_and_then:
  "fst (and_then m f w) = (case fst (m w) of Inl e \<Rightarrow> Inl e | Inr x \<Rightarrow> fst (f x (snd (m w))))"
  by (simp add: and_then_def split: prod.splits sum.splits)

lemma snd_and_then:
  "snd (and_then m f w) = (case fst (m w) of Inl e \<Rightarrow> snd (m w) | Inr x \<Rightarrow> snd (f x (snd (m w))))"
  by (simp add: and_then_def split: prod.splits sum.splits)

lemma observes_only_ret: "observes_only (ret x)"
  by (simp add: observes_only_def ret_def)

lemma observes_only_lift: "observes_only (lift r)"
  by (simp add: observes_only_def lift_def)

lemma observes_only_and_then:
  assumes m: "observes_only m" and f: "\<And>x. observes_only (f x)"
  shows "observes_only (and_then m f)"
proof (rule observes_onlyI)
  fix w
  show "self (snd (and_then m f w)) = self w"
    using observes_only_self [OF m, of w] observes_only_self [OF f]
    by (simp add: snd_and_then split: sum.splits)
next
  fix w w' :: world
  assume eq: "self w = self w'"
  have 1: "fst (m w) = fst (m w')"
    using m eq by (rule observes_only_fst)
  have 2: "self (snd (m w)) = self (snd (m w'))"
    using observes_only_self [OF m] eq by simp
  show "fst (and_then m f w) = fst (and_then m f w')"
    using 1 observes_only_fst [OF f 2] by (simp add: fst_and_then split: sum.splits)
qed

lemma self_record_call: "self (record_call ev w) = self w"
  by (simp add: record_call_def)

lemma observes_only_call_tokenizer: "observes_only (call_tokenizer s)"
  by (simp add: observes_only_def call_tokenizer_def self_record_call)

lemma observes_only_get_max_filter_size: "observes_only get_max_filter_size"
  by (simp add: observes_only_def get_max_filter_size_def)

lemma observes_only_stoi_contains: "observes_only (stoi_contains t)"
  by (simp add: observes_only_def stoi_contains_def self_record_call)

lemma observes_only_stoi_getitem: "observes_only (stoi_getitem t)"
  by (simp add: observes_only_def stoi_getitem_def self_record_call)

lemma observes_only_call_run_model: "observes_only (call_run_model b)"
  by (simp add: observes_only_def call_run_model_def self_record_call)

lemma observes_only_numericalize_token: "observes_only (numericalize_token t)"
  unfolding numericalize_token_def
  by (rule observes_only_and_then) (simp_all add: observes_only_stoi_contains observes_only_stoi_getitem)

lemma observes_only_numericalize: "observes_only (numericalize ts)"
  by (induction ts)
     (simp_all add: observes_only_ret observes_only_and_then observes_only_numericalize_token)

lemma observes_only_tokens_numerical: "observes_only (tokens_numerical s)"
  unfolding tokens_numerical_def
  by (intro observes_only_and_then observes_only_call_tokenizer
      observes_only_get_max_filter_size observes_only_numericalize)

lemma observes_only_lime_loop: "observes_only (lime_loop ss acc)"
  by (induction ss arbitrary: acc)
     (simp_all add: observes_only_ret observes_only_and_then observes_only_tokens_numerical)

lemma observes_only_call_lime: "observes_only (call_lime sg inp)"
  unfolding call_lime_def
  by (intro observes_only_and_then observes_only_lime_loop observes_only_call_run_model
      observes_only_lift observes_only_ret)

lemma observes_only_rise_loop: "observes_only (rise_loop sg ss acc)"
  by (induction ss arbitrary: acc)
     (simp_all add: observes_only_ret observes_only_and_then observes_only_tokens_numerical
      observes_only_call_run_model observes_only_lift)

lemma observes_only_call_rise: "observes_only (call_rise sg inp)"
  unfolding call_rise_def
  by (intro observes_only_and_then observes_only_rise_loop observes_only_ret)

lemma two_classes_eq: "two_classes ps = map (\<lambda>p. [1 - p, p]) ps"
  by (induction ps) (simp_all add: two_classes_def)


subsection \<open>The values of the steps\<close>

lemma fst_numericalize_token:
  "fst (numericalize_token t w) =
     (case vocab (self w) t of
        Some i \<Rightarrow> Inr i
      | None \<Rightarrow> (case vocab (self w) ''<unk>'' of
                   Some u \<Rightarrow> Inr u
                 | None \<Rightarrow> Inl (KeyError ''<unk>'')))"
  by (simp add: numericalize_token_def fst_and_then stoi_contains_def stoi_getitem_def
      self_record_call split: option.splits)

lemma fst_numericalize_Cons:
  "fst (numericalize (t # ts) w) =
     (case fst (numericalize_token t w) of
        Inl e \<Rightarrow> Inl e
      | Inr i \<Rightarrow> (case fst (numericalize ts w) of Inl e \<Rightarrow> Inl e | Inr rest \<Rightarrow> Inr (i # rest)))"
proof -
  have "fst (numericalize ts (snd (numericalize_token t w))) = fst (numericalize ts w)"
    by (rule observes_only_fst [OF observes_only_numericalize])
       (simp add: observes_only_self [OF observes_only_numericalize_token])
  then show ?thesis
    by (simp add: fst_and_then ret_def split: sum.splits)
qed

declare numericalize.simps(2) [simp del]

lemma fst_numericalize_total:
  assumes "vocab (self w) ''<unk>'' = Some u"
  shows "fst (numericalize ts w) =
           Inr (map (\<lambda>t. case vocab (self w) t of Some i \<Rightarrow> i | None \<Rightarrow> u) ts)"
proof (induction ts)
  case Nil
  show ?case by (simp add: ret_def)
next
  case (Cons t ts)
  show ?case
    using assms Cons.IH
    by (simp add: fst_numericalize_Cons fst_numericalize_token split: option.splits)
qed

lemma fst_tokens_numerical:
  "fst (tokens_numerical s w) =
     fst (numericalize (pad_tokens (max_filter_size (self w)) (tokenizer (self w) s)) w)"
proof -
  have "fst (numericalize ts (record_call ev w)) = fst (numericalize ts w)" for ts ev
    by (rule observes_only_fst [OF observes_only_numericalize]) (simp add: self_record_call)
  then show ?thesis
    by (simp add: tokens_numerical_def fst_and_then call_tokenizer_def get_max_filter_size_def
        self_record_call)
qed

lemma fst_lime_loop_Cons:
  "fst (lime_loop (s # ss) acc w) =
     (case fst (tokens_numerical s w) of
        Inl e \<Rightarrow> Inl e
      | Inr tn \<Rightarrow> fst (lime_loop ss (acc @ [tn]) w))"
proof -
  have "fst (lime_loop ss acc' (snd (tokens_numerical s w))) = fst (lime_loop ss acc' w)" for acc'
    by (rule observes_only_fst [OF observes_only_lime_loop])
       (simp add: observes_only_self [OF observes_only_tokens_numerical])
  then show ?thesis
    by (simp add: fst_and_then split: sum.splits)
qed

lemma to_float_sigmoid:
  "to_float (map (map sg) logits) = Inr p \<longleftrightarrow> (\<exists>x. logits = [[x]] \<and> p = sg x)"
  by (cases "(map (map sg) logits)" rule: to_float.cases) auto

lemma fst_rise_loop_Cons:
  "fst (rise_loop sg (s # ss) out w) =
     (case fst (tokens_numerical s w) of
        Inl e \<Rightarrow> Inl e
      | Inr tn \<Rightarrow>
          (case to_float (map (map sg) (run_model (self w) [tn])) of
             Inl e \<Rightarrow> Inl e
           | Inr pred \<Rightarrow> fst (rise_loop sg ss (out @ [pred]) w)))"
proof -
  let ?w1 = "snd (tokens_numerical s w)"
  have 1: "self ?w1 = self w"
    by (rule observes_only_self [OF observes_only_tokens_numerical])
  have 2: "fst (rise_loop sg ss out' (record_call ev ?w1)) = fst (rise_loop sg ss out' w)" for out' ev
    by (rule observes_only_fst [OF observes_only_rise_loop]) (simp add: self_record_call 1)
  show ?thesis
    by (simp add: fst_and_then call_run_model_def lift_def 1 2 split: sum.splits)
qed

declare lime_loop.simps(2) [simp del] rise_loop.simps(2) [simp del]

lemma fst_call_lime:
  "fst (call_lime sg inp w) =
     (case fst (lime_loop (ensure_batch inp) [] w) of
        Inl e \<Rightarrow> Inl e
      | Inr tns \<Rightarrow>
          (case apply_along_axis_1 sg (run_model (self w) tns) of
             Inl e \<Rightarrow> Inl e
           | Inr pred \<Rightarrow>
               (case column_0 pred of
                  Inl e \<Rightarrow> Inl e
                | Inr positivity \<Rightarrow> Inr (two_classes positivity))))"
  by (simp add: call_lime_def fst_and_then call_run_model_def lift_def ret_def
      observes_only_self [OF observes_only_lime_loop] split: sum.splits)

lemma fst_call_rise:
  "fst (call_rise sg inp w) =
     (case fst (rise_loop sg (ensure_batch inp) [] w) of
        Inl e \<Rightarrow> Inl e
      | Inr output \<Rightarrow> Inr (two_classes output))"
  by (simp add: call_rise_def fst_and_then ret_def split: sum.splits)

lemma lime_loop_Inr:
  "fst (lime_loop ss acc w) = Inr tns' \<Longrightarrow>
     \<exists>tns. tns' = acc @ tns \<and> list_all2 (\<lambda>s tn. fst (tokens_numerical s w) = Inr tn) ss tns"
proof (induction ss arbitrary: acc)
  case Nil
  then show ?case by (simp add: ret_def)
next
  case (Cons s ss)
  from Cons.prems obtain tn where tn: "fst (tokens_numerical s w) = Inr tn"
    and rest: "fst (lime_loop ss (acc @ [tn]) w) = Inr tns'"
    by (auto simp: fst_lime_loop_Cons split: sum.splits)
  from Cons.IH [OF rest] obtain tns where "tns' = (acc @ [tn]) @ tns"
    and "list_all2 (\<lambda>s tn. fst (tokens_numerical s w) = Inr tn) ss tns"
    by blast
  with tn have "tns' = acc @ (tn # tns) \<and>
      list_all2 (\<lambda>s tn. fst (tokens_numerical s w) = Inr tn) (s # ss) (tn # tns)"
    by simp
  then show ?case by blast
qed

lemma rise_loop_Inr:
  "fst (rise_loop sg ss out w) = Inr out' \<Longrightarrow>
     \<exists>ps. out' = out @ ps \<and>
       list_all2 (\<lambda>s p. \<exists>tn x. fst (tokens_numerical s w) = Inr tn \<and>
                    run_model (self w) [tn] = [[x]] \<and> p = sg x) ss ps"
proof (induction ss arbitrary: out)
  case Nil
  then show ?case by (simp add: ret_def)
next
  case (Cons s ss)
  from Cons.prems obtain tn p where tn: "fst (tokens_numerical s w) = Inr tn"
    and p: "to_float (map (map sg) (run_model (self w) [tn])) = Inr p"
    and rest: "fst (rise_loop sg ss (out @ [p]) w) = Inr out'"
    by (auto simp: fst_rise_loop_Cons split: sum.splits)
  from p obtain x where x: "run_model (self w) [tn] = [[x]]" "p = sg x"
    by (auto simp: to_float_sigmoid)
  from Cons.IH [OF rest] obtain ps where "out' = (out @ [p]) @ ps"
    and "list_all2 (\<lambda>s p. \<exists>tn x. fst (tokens_numerical s w) = Inr tn \<and>
                    run_model (self w) [tn] = [[x]] \<and> p = sg x) ss ps"
    by blast
  with tn x have "out' = out @ (p # ps) \<and>
      list_all2 (\<lambda>s p. \<exists>tn x. fst (tokens_numerical s w) = Inr tn \<and>
                    run_model (self w) [tn] = [[x]] \<and> p = sg x) (s # ss) (p # ps)"
    by auto
  then show ?case by blast
qed

lemma fst_lime_loop_acc:
  "fst (lime_loop ss acc w) = map_sum id (\<lambda>tns. acc @ tns) (fst (lime_loop ss [] w))"
proof (induction ss arbitrary: acc)
  case Nil
  show ?case by (simp add: ret_def)
next
  case (Cons s ss)
  show ?case
  proof (cases "fst (tokens_numerical s w)")
    case (Inl e)
    then show ?thesis by (simp add: fst_lime_loop_Cons)
  next
    case (Inr tn)
    have "fst (lime_loop ss (acc @ [tn]) w) =
            map_sum id (\<lambda>tns. (acc @ [tn]) @ tns) (fst (lime_loop ss [] w))"
      by (rule Cons.IH)
    moreover have "fst (lime_loop ss [tn] w) =
            map_sum id (\<lambda>tns. [tn] @ tns) (fst (lime_loop ss [] w))"
      by (rule Cons.IH)
    ultimately show ?thesis
      using Inr by (cases "fst (lime_loop ss [] w)") (simp_all add: fst_lime_loop_Cons)
  qed
qed

lemma fst_rise_loop_lime_loop:
  assumes "one_logit_each g (self w)"
  shows "fst (rise_loop sg ss out w) =
           map_sum id (\<lambda>tns. out @ map (\<lambda>tn. sg (g tn)) tns) (fst (lime_loop ss [] w))"
proof (induction ss arbitrary: out)
  case Nil
  show ?case by (simp add: ret_def)
next
  case (Cons s ss)
  show ?case
  proof (cases "fst (tokens_numerical s w)")
    case (Inl e)
    then show ?thesis by (simp add: fst_lime_loop_Cons fst_rise_loop_Cons)
  next
    case (Inr tn)
    have run: "run_model (self w) [tn] = [[g tn]]"
      using assms by (simp add: one_logit_each_def)
    have "fst (rise_loop sg ss (out @ [sg (g tn)]) w) =
            map_sum id (\<lambda>tns. (out @ [sg (g tn)]) @ map (\<lambda>tn. sg (g tn)) tns)
              (fst (lime_loop ss [] w))"
      by (rule Cons.IH)
    moreover have "fst (lime_loop ss [tn] w) =
            map_sum id (\<lambda>tns. [tn] @ tns) (fst (lime_loop ss [] w))"
      by (rule fst_lime_loop_acc)
    ultimately show ?thesis
      using Inr run
      by (cases "fst (lime_loop ss [] w)") (simp_all add: fst_lime_loop_Cons fst_rise_loop_Cons)
  qed
qed

lemma fst_tokens_numerical_total:
  assumes "vocab (self w) ''<unk>'' = Some u"
  shows "fst (tokens_numerical s w) =
     Inr (map (\<lambda>t. case vocab (self w) t of Some i \<Rightarrow> i | None \<Rightarrow> u)
            (pad_tokens (max_filter_size (self w)) (tokenizer (self w) s)))"
  by (simp add: fst_tokens_numerical fst_numericalize_total [OF assms])

lemma fst_lime_loop_total:
  assumes "vocab (self w) ''<unk>'' = Some u"
  shows "fst (lime_loop ss acc w) =
           Inr (acc @ map (\<lambda>s. projr (fst (tokens_numerical s w))) ss)"
proof (induction ss arbitrary: acc)
  case Nil
  show ?case by (simp add: ret_def)
next
  case (Cons s ss)
  show ?case
    by (simp add: fst_lime_loop_Cons fst_tokens_numerical_total [OF assms] Cons.IH)
qed

subsection \<open>The example runner\<close>

lemmas example_defs = example_vocab_def example_tokenizer_def example_logit_def
  example_sigmoid_def example_runner_def example_world_def

lemma example_unk: "vocab (self example_world) ''<unk>'' = Some 0"
  by (simp add: example_defs)

lemma example_one_logit_each: "one_logit_each example_logit (self example_world)"
  by (simp add: one_logit_each_def example_world_def example_runner_def)

lemma example_tn1: "fst (tokens_numerical ''thriller surprises'' example_world) = Inr [2, 3, 1, 1, 1]"
  by (simp add: fst_tokens_numerical_total [OF example_unk])
     (simp add: example_defs pad_tokens_def eval_nat_numeral)

lemma example_tn2: "fst (tokens_numerical ''dull'' example_world) = Inr [0, 1, 1, 1, 1]"
  by (simp add: fst_tokens_numerical_total [OF example_unk])
     (simp add: example_defs pad_tokens_def eval_nat_numeral)

lemma example_run1: "run_model (self example_world) [[2, 3, 1, 1, 1]] = [[3]]"
  by (simp add: example_defs)

lemma example_run2: "run_model (self example_world) [[0, 1, 1, 1, 1]] = [[-1]]"
  by (simp add: example_defs)

lemma example_run12: "run_model (self example_world) [[2, 3, 1, 1, 1], [0, 1, 1, 1, 1]] = [[3], [-1]]"
  by (simp add: example_defs)

lemma example_call_lime:
  "fst (call_lime example_sigmoid (Batch [''thriller surprises'', ''dull'']) example_world)
     = Inr [[1 / 4, 3 / 4], [3 / 4, 1 / 4]]"
  by (simp add: fst_call_lime fst_lime_loop_Cons example_tn1 example_tn2 ret_def example_run12
      apply_along_axis_1_def column_0_def two_classes_eq example_sigmoid_def)

lemma example_call_rise:
  "fst (call_rise example_sigmoid (Batch [''thriller surprises'', ''dull'']) example_world)
     = Inr [[1 / 4, 3 / 4], [3 / 4, 1 / 4]]"
  by (simp add: fst_call_rise fst_rise_loop_Cons example_tn1 example_tn2 ret_def example_run1
      example_run2 two_classes_eq example_sigmoid_def)

subsection \<open>What a successful call returns\<close>

lemma two_classes_rows:
  assumes "\<forall>x. 0 \<le> sg x \<and> sg x \<le> 1" and "set ps \<subseteq> range sg"
  shows "list_all (\<lambda>row. \<exists>neg pos. row = [neg, pos] \<and> 0 \<le> neg \<and> neg \<le> 1 \<and>
           0 \<le> pos \<and> pos \<le> 1 \<and> neg + pos = 1) (two_classes ps)"
proof -
  have "0 \<le> p \<and> p \<le> 1" if "p \<in> set ps" for p
    using assms that by auto
  then show ?thesis
    by (simp add: two_classes_eq list_all_iff)
qed

lemma call_lime_Inr:
  assumes "fst (call_lime sg inp w) = Inr out"
  shows "\<exists>tns. fst (lime_loop (ensure_batch inp) [] w) = Inr tns \<and>
           [] \<notin> set (run_model (self w) tns) \<and>
           out = two_classes (map (\<lambda>row. sg (hd row)) (run_model (self w) tns))"
proof -
  from assms obtain tns pred positivity
    where tns: "fst (lime_loop (ensure_batch inp) [] w) = Inr tns"
      and pred: "apply_along_axis_1 sg (run_model (self w) tns) = Inr pred"
      and pos: "column_0 pred = Inr positivity"
      and out: "out = two_classes positivity"
    by (auto simp: fst_call_lime split: sum.splits)
  from pred have pred_eq: "pred = map (map sg) (run_model (self w) tns)"
    by (simp add: apply_along_axis_1_def split: if_splits)
  from pos have nonempty: "[] \<notin> set pred" and pos_eq: "positivity = map hd pred"
    by (simp_all add: column_0_def split: if_splits)
  from nonempty have ne: "[] \<notin> set (run_model (self w) tns)"
    by (auto simp: pred_eq)
  have "row \<noteq> []" if "row \<in> set (run_model (self w) tns)" for row
    using ne that by blast
  then have "map hd pred = map (\<lambda>row. sg (hd row)) (run_model (self w) tns)"
    by (simp add: pred_eq hd_map)
  with tns ne out pos_eq show ?thesis by simp
qed

lemma call_rise_Inr:
  assumes "fst (call_rise sg inp w) = Inr out"
  shows "\<exists>ps. out = two_classes ps \<and>
       list_all2 (\<lambda>s p. \<exists>tn x. fst (tokens_numerical s w) = Inr tn \<and>
                    run_model (self w) [tn] = [[x]] \<and> p = sg x) (ensure_batch inp) ps"
proof -
  from assms obtain ps
    where loop: "fst (rise_loop sg (ensure_batch inp) [] w) = Inr ps"
      and out: "out = two_classes ps"
    by (auto simp: fst_call_rise split: sum.splits)
  from rise_loop_Inr [OF loop] out show ?thesis by auto
qed

lemma lime_post_processing:
  assumes "one_logit_each g (self w)" and "tns \<noteq> []"
  shows "(case apply_along_axis_1 sg (run_model (self w) tns) of
            Inl e \<Rightarrow> Inl e
          | Inr pred \<Rightarrow>
              (case column_0 pred of
                 Inl e \<Rightarrow> Inl e
               | Inr positivity \<Rightarrow> Inr (two_classes positivity)))
         = Inr (two_classes (map (\<lambda>tn. sg (g tn)) tns))"
proof -
  have run: "run_model (self w) tns = map (\<lambda>tn. [g tn]) tns"
    using assms(1) by (simp add: one_logit_each_def)
  show ?thesis
    using assms(2) by (auto simp: run apply_along_axis_1_def column_0_def comp_def)
qed

lemma lime_loop_length:
  assumes "fst (lime_loop ss [] w) = Inr tns"
  shows "length tns = length ss"
  using lime_loop_Inr [OF assms] by (auto dest: list_all2_lengthD)

lemma call_rise_total:
  assumes "vocab (self w) ''<unk>'' = Some u" and "one_logit_each g (self w)"
  shows "fst (call_rise sg inp w) =
           Inr (map (\<lambda>s. [1 - sg (g (projr (fst (tokens_numerical s w)))),
                          sg (g (projr (fst (tokens_numerical s w))))]) (ensure_batch inp))"
  by (simp add: fst_call_rise fst_rise_loop_lime_loop [OF assms(2)]
      fst_lime_loop_total [OF assms(1)] two_classes_eq comp_def)

lemma call_lime_total:
  assumes "vocab (self w) ''<unk>'' = Some u" and "one_logit_each g (self w)"
    and "ensure_batch inp \<noteq> []"
  shows "fst (call_lime sg inp w) =
           Inr (map (\<lambda>s. [1 - sg (g (projr (fst (tokens_numerical s w)))),
                          sg (g (projr (fst (tokens_numerical s w))))]) (ensure_batch inp))"
proof -
  have "map (\<lambda>s. projr (fst (tokens_numerical s w))) (ensure_batch inp) \<noteq> []"
    using assms(3) by simp
  from lime_post_processing [OF assms(2) this, of sg] show ?thesis
    by (simp add: fst_call_lime fst_lime_loop_total [OF assms(1)] two_classes_eq comp_def)
qed

section \<open>The claims\<close>

text \<open>
  C1, as it holds. Let the vocabulary have an entry for \<^verbatim>\<open><unk>\<close> and let the scoring
  function return one logit per numericalized sentence. Then there is a function \<open>row\<close>
  from sentences to rows of two entries such that a call on the single sentence \<open>s\<close>
  returns the one row \<open>row s\<close>, the RISE notebook's call on a batch \<open>ss\<close> of \<open>N\<close>
  sentences returns the \<open>N\<close> rows \<open>map row ss\<close> (row \<open>i\<close> comes from sentence \<open>i\<close>
  alone, in the order of the input), and the LIME notebook's call returns the same rows for
  every batch that is not empty.
\<close>

theorem batch_rows_in_order:
  assumes "vocab (self w) ''<unk>'' = Some u" and "one_logit_each g (self w)"
  shows "\<exists>row. (\<forall>s. length (row s) = 2 \<and>
                   fst (call_rise sg (Str s) w) = Inr [row s] \<and>
                   fst (call_lime sg (Str s) w) = Inr [row s]) \<and>
           fst (call_rise sg (Batch ss) w) = Inr (map row ss) \<and>
           (ss \<noteq> [] \<longrightarrow> fst (call_lime sg (Batch ss) w) = Inr (map row ss))"
proof -
  let ?row = "\<lambda>s. [1 - sg (g (projr (fst (tokens_numerical s w)))),
                    sg (g (projr (fst (tokens_numerical s w))))]"
  have single: "\<forall>s. length (?row s) = 2 \<and>
                   fst (call_rise sg (Str s) w) = Inr [?row s] \<and>
                   fst (call_lime sg (Str s) w) = Inr [?row s]"
    by (simp add: call_rise_total [OF assms] call_lime_total [OF assms])
  have rise: "fst (call_rise sg (Batch ss) w) = Inr (map ?row ss)"
    by (simp add: call_rise_total [OF assms])
  have lime: "ss \<noteq> [] \<longrightarrow> fst (call_lime sg (Batch ss) w) = Inr (map ?row ss)"
    by (simp add: call_lime_total [OF assms])
  show ?thesis
    by (rule exI [where x = "?row"]) (intro conjI single rise lime)
qed

text \<open>C1 on the example runner, for a batch of two sentences.\<close>

theorem batch_rows_in_order_witness:
  "vocab (self example_world) ''<unk>'' = Some 0 \<and>
   one_logit_each example_logit (self example_world) \<and>
   (\<exists>row. (\<forall>s. length (row s) = 2 \<and>
              fst (call_rise example_sigmoid (Str s) example_world) = Inr [row s] \<and>
              fst (call_lime example_sigmoid (Str s) example_world) = Inr [row s]) \<and>
      fst (call_rise example_sigmoid (Batch [''thriller surprises'', ''dull'']) example_world)
        = Inr (map row [''thriller surprises'', ''dull'']) \<and>
      fst (call_lime example_sigmoid (Batch [''thriller surprises'', ''dull'']) example_world)
        = Inr (map row [''thriller surprises'', ''dull'']))"
proof -
  have unk: "vocab (self example_world) ''<unk>'' = Some 0"
    by (simp add: example_defs)
  have h: "one_logit_each example_logit (self example_world)"
    by (simp add: one_logit_each_def example_world_def example_runner_def)
  from batch_rows_in_order [OF unk h, of example_sigmoid "[''thriller surprises'', ''dull'']"]
    unk h
  show ?thesis by simp
qed

text \<open>
  C1 as stated fails for the LIME notebook at \<open>N = 0\<close>: with no sentence the scoring
  function returns no row, and \<^verbatim>\<open>np.apply_along_axis\<close> raises \<^verbatim>\<open>ValueError\<close>
  instead of returning an array with no rows.
\<close>

theorem call_lime_empty_batch_raises:
  "vocab (self example_world) ''<unk>'' = Some 0 \<and>
   one_logit_each example_logit (self example_world) \<and>
   fst (call_lime example_sigmoid (Batch []) example_world) = Inl ValueError"
  by (simp add: one_logit_each_def fst_call_lime ret_def apply_along_axis_1_def
      example_world_def example_runner_def example_vocab_def)

text \<open>
  C2. If the sigmoid takes its values in \<open>[0, 1]\<close>, every row of an array returned by
  either \<^verbatim>\<open>__call__\<close> has two entries, both in \<open>[0, 1]\<close>, whose sum is exactly 1.
\<close>

theorem rows_are_probabilities:
  assumes "\<forall>x. 0 \<le> sg x \<and> sg x \<le> 1"
  shows "(fst (call_lime sg inp w) = Inr out \<longrightarrow>
            list_all (\<lambda>row. \<exists>neg pos. row = [neg, pos] \<and> 0 \<le> neg \<and> neg \<le> 1 \<and>
              0 \<le> pos \<and> pos \<le> 1 \<and> neg + pos = 1) out) \<and>
         (fst (call_rise sg inp w) = Inr out' \<longrightarrow>
            list_all (\<lambda>row. \<exists>neg pos. row = [neg, pos] \<and> 0 \<le> neg \<and> neg \<le> 1 \<and>
              0 \<le> pos \<and> pos \<le> 1 \<and> neg + pos = 1) out')"
proof (intro conjI impI)
  assume "fst (call_lime sg inp w) = Inr out"
  from call_lime_Inr [OF this] obtain tns
    where "out = two_classes (map (\<lambda>row. sg (hd row)) (run_model (self w) tns))"
    by blast
  moreover have "set (map (\<lambda>row. sg (hd row)) (run_model (self w) tns)) \<subseteq> range sg"
    by auto
  ultimately show "list_all (\<lambda>row. \<exists>neg pos. row = [neg, pos] \<and> 0 \<le> neg \<and> neg \<le> 1 \<and>
              0 \<le> pos \<and> pos \<le> 1 \<and> neg + pos = 1) out"
    using two_classes_rows [OF assms] by simp
next
  assume "fst (call_rise sg inp w) = Inr out'"
  from call_rise_Inr [OF this] obtain ps where out': "out' = two_classes ps"
    and ps: "list_all2 (\<lambda>s p. \<exists>tn x. fst (tokens_numerical s w) = Inr tn \<and>
                    run_model (self w) [tn] = [[x]] \<and> p = sg x) (ensure_batch inp) ps"
    by blast
  from ps have "set ps \<subseteq> range sg"
    by (induction rule: list_all2_induct) auto
  then show "list_all (\<lambda>row. \<exists>neg pos. row = [neg, pos] \<and> 0 \<le> neg \<and> neg \<le> 1 \<and>
              0 \<le> pos \<and> pos \<le> 1 \<and> neg + pos = 1) out'"
    using two_classes_rows [OF assms] out' by simp
qed

text \<open>C2 on the example runner.\<close>

theorem rows_are_probabilities_witness:
  "fst (call_lime example_sigmoid (Batch [''thriller surprises'', ''dull'']) example_world)
     = Inr [[1 / 4, 3 / 4], [3 / 4, 1 / 4]] \<and>
   fst (call_rise example_sigmoid (Batch [''thriller surprises'', ''dull'']) example_world)
     = Inr [[1 / 4, 3 / 4], [3 / 4, 1 / 4]] \<and>
   list_all (\<lambda>row. \<exists>neg pos. row = [neg, pos] \<and> 0 \<le> neg \<and> neg \<le> 1 \<and>
              0 \<le> pos \<and> pos \<le> 1 \<and> neg + pos = 1) [[1 / 4, 3 / 4], [3 / 4, 1 / 4 :: real]]"
proof -
  have range: "\<forall>x. 0 \<le> example_sigmoid x \<and> example_sigmoid x \<le> 1"
    by (simp add: example_sigmoid_def)
  show ?thesis
    using rows_are_probabilities [OF range,
        of "Batch [''thriller surprises'', ''dull'']" example_world
           "[[1 / 4, 3 / 4], [3 / 4, 1 / 4]]" "[[1 / 4, 3 / 4], [3 / 4, 1 / 4]]"]
      example_call_lime example_call_rise
    by simp
qed

text \<open>
  C3. Every row returned is \<open>[negativity, positivity]\<close> in this order, with positivity the
  sigmoid of a logit of the scoring function and negativity one minus it. In the LIME
  notebook the logits are column 0 of what the scoring function returns for the batch of
  numericalized sentences, row by row; in the RISE notebook the logit of a sentence is the
  single entry of what the scoring function returns for that numericalized sentence alone.
\<close>

theorem rows_are_negativity_positivity:
  "(fst (call_lime sg inp w) = Inr out \<longrightarrow>
      (\<exists>tns. list_all2 (\<lambda>s tn. fst (tokens_numerical s w) = Inr tn) (ensure_batch inp) tns \<and>
         list_all2 (\<lambda>logits_row row. \<exists>x rest. logits_row = x # rest \<and> row = [1 - sg x, sg x])
           (run_model (self w) tns) out)) \<and>
   (fst (call_rise sg inp w) = Inr out' \<longrightarrow>
      list_all2 (\<lambda>s row. \<exists>tn x. fst (tokens_numerical s w) = Inr tn \<and>
                   run_model (self w) [tn] = [[x]] \<and> row = [1 - sg x, sg x])
        (ensure_batch inp) out')"
proof (intro conjI impI)
  assume "fst (call_lime sg inp w) = Inr out"
  from call_lime_Inr [OF this] obtain tns
    where loop: "fst (lime_loop (ensure_batch inp) [] w) = Inr tns"
      and ne: "[] \<notin> set (run_model (self w) tns)"
      and out: "out = two_classes (map (\<lambda>row. sg (hd row)) (run_model (self w) tns))"
    by blast
  from lime_loop_Inr [OF loop]
  have tns: "list_all2 (\<lambda>s tn. fst (tokens_numerical s w) = Inr tn) (ensure_batch inp) tns"
    by simp
  have "\<exists>x rest. row = x # rest \<and> [1 - sg (hd row), sg (hd row)] = [1 - sg x, sg x]"
    if "row \<in> set (run_model (self w) tns)" for row
    using ne that by (cases row) auto
  then have "list_all2 (\<lambda>logits_row row. \<exists>x rest. logits_row = x # rest \<and> row = [1 - sg x, sg x])
           (run_model (self w) tns) out"
    by (simp add: out two_classes_eq list_all2_map2 list_all2_same comp_def)
  with tns show "\<exists>tns. list_all2 (\<lambda>s tn. fst (tokens_numerical s w) = Inr tn) (ensure_batch inp) tns \<and>
         list_all2 (\<lambda>logits_row row. \<exists>x rest. logits_row = x # rest \<and> row = [1 - sg x, sg x])
           (run_model (self w) tns) out"
    by blast
next
  assume "fst (call_rise sg inp w) = Inr out'"
  from call_rise_Inr [OF this] obtain ps where out': "out' = two_classes ps"
    and ps: "list_all2 (\<lambda>s p. \<exists>tn x. fst (tokens_numerical s w) = Inr tn \<and>
                    run_model (self w) [tn] = [[x]] \<and> p = sg x) (ensure_batch inp) ps"
    by blast
  from ps show "list_all2 (\<lambda>s row. \<exists>tn x. fst (tokens_numerical s w) = Inr tn \<and>
                   run_model (self w) [tn] = [[x]] \<and> row = [1 - sg x, sg x])
        (ensure_batch inp) out'"
    unfolding out' two_classes_eq list_all2_map2
    by (rule list_all2_mono) auto
qed

text \<open>C3 on the example runner.\<close>

theorem rows_are_negativity_positivity_witness:
  "fst (call_lime example_sigmoid (Batch [''thriller surprises'', ''dull'']) example_world)
     = Inr [[1 / 4, 3 / 4], [3 / 4, 1 / 4]] \<and>
   fst (call_rise example_sigmoid (Batch [''thriller surprises'', ''dull'']) example_world)
     = Inr [[1 / 4, 3 / 4], [3 / 4, 1 / 4]] \<and>
   (\<exists>tns. list_all2 (\<lambda>s tn. fst (tokens_numerical s example_world) = Inr tn)
            [''thriller surprises'', ''dull''] tns \<and>
      list_all2 (\<lambda>logits_row row. \<exists>x rest. logits_row = x # rest \<and>
                   row = [1 - example_sigmoid x, example_sigmoid x])
        (run_model (self example_world) tns) [[1 / 4, 3 / 4], [3 / 4, 1 / 4]]) \<and>
   list_all2 (\<lambda>s row. \<exists>tn x. fst (tokens_numerical s example_world) = Inr tn \<and>
                run_model (self example_world) [tn] = [[x]] \<and>
                row = [1 - example_sigmoid x, example_sigmoid x])
     [''thriller surprises'', ''dull''] [[1 / 4, 3 / 4], [3 / 4, 1 / 4]]"
proof -
  note inst = rows_are_negativity_positivity [of example_sigmoid
      "Batch [''thriller surprises'', ''dull'']" example_world
      "[[1 / 4, 3 / 4], [3 / 4, 1 / 4]]" "[[1 / 4, 3 / 4], [3 / 4, 1 / 4]]"]
  from inst example_call_lime have 1:
    "\<exists>tns. list_all2 (\<lambda>s tn. fst (tokens_numerical s example_world) = Inr tn)
            (ensure_batch (Batch [''thriller surprises'', ''dull''])) tns \<and>
      list_all2 (\<lambda>logits_row row. \<exists>x rest. logits_row = x # rest \<and>
                   row = [1 - example_sigmoid x, example_sigmoid x])
        (run_model (self example_world) tns) [[1 / 4, 3 / 4], [3 / 4, 1 / 4]]"
    by blast
  from inst example_call_rise have 2:
    "list_all2 (\<lambda>s row. \<exists>tn x. fst (tokens_numerical s example_world) = Inr tn \<and>
                run_model (self example_world) [tn] = [[x]] \<and>
                row = [1 - example_sigmoid x, example_sigmoid x])
     (ensure_batch (Batch [''thriller surprises'', ''dull''])) [[1 / 4, 3 / 4], [3 / 4, 1 / 4]]"
    by blast
  from 1 have b1: "\<exists>tns. list_all2 (\<lambda>s tn. fst (tokens_numerical s example_world) = Inr tn)
            [''thriller surprises'', ''dull''] tns \<and>
      list_all2 (\<lambda>logits_row row. \<exists>x rest. logits_row = x # rest \<and>
                   row = [1 - example_sigmoid x, example_sigmoid x])
        (run_model (self example_world) tns) [[1 / 4, 3 / 4], [3 / 4, 1 / 4]]"
    unfolding ensure_batch.simps .
  from 2 have b2: "list_all2 (\<lambda>s row. \<exists>tn x. fst (tokens_numerical s example_world) = Inr tn \<and>
                run_model (self example_world) [tn] = [[x]] \<and>
                row = [1 - example_sigmoid x, example_sigmoid x])
     [''thriller surprises'', ''dull''] [[1 / 4, 3 / 4], [3 / 4, 1 / 4]]"
    unfolding ensure_batch.simps .
  from example_call_lime example_call_rise b1 b2 show ?thesis
    by (intro conjI)
qed

text \<open>
  C4. Fewer tokens than \<^verbatim>\<open>max_filter_size\<close> are padded on the right with
  \<^verbatim>\<open><pad>\<close> to exactly that length; at least \<^verbatim>\<open>max_filter_size\<close> tokens are
  left as they are; either way the length is the larger of the number of tokens and
  \<^verbatim>\<open>max_filter_size\<close>. The padded tokens of the tokenizer's output are what is
  numericalized.
\<close>

theorem pad_to_max_filter_size:
  "(int (length tokens) < mfs \<longrightarrow>
      pad_tokens mfs tokens = tokens @ replicate (nat (mfs - int (length tokens))) ''<pad>'' \<and>
      int (length (pad_tokens mfs tokens)) = mfs) \<and>
   (mfs \<le> int (length tokens) \<longrightarrow> pad_tokens mfs tokens = tokens) \<and>
   int (length (pad_tokens mfs tokens)) = max (int (length tokens)) mfs \<and>
   tokens_numerical sentence w =
     numericalize (pad_tokens (max_filter_size (self w)) (tokenizer (self w) sentence))
       (record_call (Tokenizer_call sentence) w)"
  by (simp add: pad_tokens_def tokens_numerical_def and_then_def call_tokenizer_def
      get_max_filter_size_def self_record_call)

text \<open>C4 for two tokens, with \<^verbatim>\<open>max_filter_size\<close> 5 (padding) and 2 (no padding).\<close>

theorem pad_to_max_filter_size_witness:
  "int (length [''thriller'', ''surprises'']) < 5 \<and>
   pad_tokens 5 [''thriller'', ''surprises''] =
     [''thriller'', ''surprises'', ''<pad>'', ''<pad>'', ''<pad>''] \<and>
   int (length (pad_tokens 5 [''thriller'', ''surprises''])) = 5 \<and>
   (2::int) \<le> int (length [''thriller'', ''surprises'']) \<and>
   pad_tokens 2 [''thriller'', ''surprises''] = [''thriller'', ''surprises'']"
  using pad_to_max_filter_size [where tokens = "[''thriller'', ''surprises'']" and mfs = 5]
    pad_to_max_filter_size [where tokens = "[''thriller'', ''surprises'']" and mfs = 2]
  by (simp add: eval_nat_numeral)

text \<open>
  C5. With an entry \<open>u\<close> for \<^verbatim>\<open><unk>\<close> in the vocabulary, numericalization raises
  nothing: a token of the vocabulary becomes its index and any other token becomes \<open>u\<close>.
\<close>

theorem numericalize_never_fails:
  assumes "vocab (self w) ''<unk>'' = Some u"
  shows "fst (numericalize tokens w) =
           Inr (map (\<lambda>token. case vocab (self w) token of Some i \<Rightarrow> i | None \<Rightarrow> u) tokens)"
  using assms by (rule fst_numericalize_total)

text \<open>C5 on the example vocabulary: a known word, an unknown one and the pad token.\<close>

theorem numericalize_never_fails_witness:
  "vocab (self example_world) ''<unk>'' = Some 0 \<and>
   fst (numericalize [''thriller'', ''dull'', ''<pad>''] example_world) = Inr [2, 0, 1]"
proof -
  have unk: "vocab (self example_world) ''<unk>'' = Some 0"
    by (simp add: example_defs)
  show ?thesis
    using unk numericalize_never_fails [OF unk, of "[''thriller'', ''dull'', ''<pad>'']"]
    by (simp add: example_defs)
qed

text \<open>
  C6. A call with the single string \<open>s\<close> is the call with the one-element list \<open>[s]\<close>:
  the same value, the same exceptions and the same invocations, in both notebooks.
\<close>

theorem single_string_is_batch_of_one:
  "call_lime sg (Str s) = call_lime sg (Batch [s]) \<and> call_rise sg (Str s) = call_rise sg (Batch [s])"
  by (simp add: call_lime_def call_rise_def)

text \<open>
  C7, as it holds. When the scoring function returns one logit per numericalized sentence,
  the LIME notebook's and the RISE notebook's \<^verbatim>\<open>__call__\<close> give the same result (the
  same array, or the same exception) on every batch that is not empty.
\<close>

theorem lime_and_rise_agree:
  assumes "one_logit_each g (self w)" and "ensure_batch inp \<noteq> []"
  shows "fst (call_lime sg inp w) = fst (call_rise sg inp w)"
proof (cases "fst (lime_loop (ensure_batch inp) [] w)")
  case (Inl e)
  then show ?thesis
    by (simp add: fst_call_lime fst_call_rise fst_rise_loop_lime_loop [OF assms(1)])
next
  case (Inr tns)
  from lime_loop_length [OF Inr] assms(2) have "tns \<noteq> []"
    by auto
  from lime_post_processing [OF assms(1) this, of sg] Inr show ?thesis
    by (simp add: fst_call_lime fst_call_rise fst_rise_loop_lime_loop [OF assms(1)])
qed

text \<open>C7 on the example runner, for a batch of two sentences.\<close>

theorem lime_and_rise_agree_witness:
  "one_logit_each example_logit (self example_world) \<and>
   ensure_batch (Batch [''thriller surprises'', ''dull'']) \<noteq> [] \<and>
   fst (call_lime example_sigmoid (Batch [''thriller surprises'', ''dull'']) example_world) =
   fst (call_rise example_sigmoid (Batch [''thriller surprises'', ''dull'']) example_world) \<and>
   fst (call_rise example_sigmoid (Batch [''thriller surprises'', ''dull'']) example_world) =
     Inr [[1 / 4, 3 / 4], [3 / 4, 1 / 4]]"
proof -
  have h: "one_logit_each example_logit (self example_world)"
    by (simp add: one_logit_each_def example_world_def example_runner_def)
  have ne: "ensure_batch (Batch [''thriller surprises'', ''dull'']) \<noteq> []"
    by simp
  from lime_and_rise_agree [OF h ne, of example_sigmoid] h ne example_call_rise
  show ?thesis by simp
qed

text \<open>
  C7 as stated fails at the empty batch: the LIME notebook's call raises
  \<^verbatim>\<open>ValueError\<close>, the RISE notebook's call returns the array with no rows.
\<close>

theorem lime_and_rise_differ_on_empty_batch:
  "one_logit_each example_logit (self example_world) \<and>
   fst (call_lime example_sigmoid (Batch []) example_world) = Inl ValueError \<and>
   fst (call_rise example_sigmoid (Batch []) example_world) = Inr []"
  by (simp add: one_logit_each_def fst_call_lime fst_call_rise ret_def apply_along_axis_1_def
      two_classes_eq example_world_def example_runner_def)

text \<open>
  C8. Whatever the input and whether or not an exception is raised, a call leaves the
  runner (\<^verbatim>\<open>run_model\<close>, \<^verbatim>\<open>vocab\<close>, \<^verbatim>\<open>max_filter_size\<close> and
  \<^verbatim>\<open>tokenizer\<close>) exactly as it was.
\<close>

theorem call_leaves_runner_unchanged:
  "self (snd (call_lime sg inp w)) = self w \<and> self (snd (call_rise sg inp w)) = self w"
  by (simp add: observes_only_self [OF observes_only_call_lime]
      observes_only_self [OF observes_only_call_rise])

text \<open>
  C9. On the empty list the RISE notebook's \<^verbatim>\<open>__call__\<close> returns the array with no
  rows (numpy's shape \<open>(0, 2)\<close>) and leaves the whole state as it was: nothing is added to
  the record of invocations, so neither the tokenizer nor the vocabulary nor the scoring
  function is used.
\<close>

theorem call_rise_empty_batch:
  "call_rise sg (Batch []) w = (Inr [], w)"
  by (simp add: call_rise_def and_then_def ret_def two_classes_def)

text \<open>
  C10. The tokenizer and the scoring function are functions here, so they are deterministic.
  A second call on the same input, made in the state the first call left, has the
  same outcome as the first.
\<close>

theorem call_twice_same_output:
  "fst (call_lime sg inp (snd (call_lime sg inp w))) = fst (call_lime sg inp w) \<and>
   fst (call_rise sg inp (snd (call_rise sg inp w))) = fst (call_rise sg inp w)"
proof
  show "fst (call_lime sg inp (snd (call_lime sg inp w))) = fst (call_lime sg inp w)"
    by (rule observes_only_fst [OF observes_only_call_lime])
       (rule observes_only_self [OF observes_only_call_lime])
  show "fst (call_rise sg inp (snd (call_rise sg inp w))) = fst (call_rise sg inp w)"
    by (rule observes_only_fst [OF observes_only_call_rise])
       (rule observes_only_self [OF observes_only_call_rise])
qed

end
